theory Spec2Isabelle
  imports Complex_Main "HOL-Library.Product_Lexorder" "HOL-Library.Multiset"
begin

section \<open>Data model of \<^verbatim>\<open>src/app_dashboard.py\<close>\<close>

text \<open>
  The dashboard works on pandas frames. A frame is modelled as the list of its rows, a row
  as a record of its columns. Identifiers and scores are Python integers (\<open>int\<close>), a date
  is a point on the time line (\<open>int\<close>), and a floating-point value is a \<open>float\<close>:
  \<open>None\<close> is NaN (pandas' absent value) and \<open>Some q\<close> the exact value that the double
  approximates.

  \<open>GAMES\<close> is read by \<open>load_games\<close> with
  \<^verbatim>\<open>WHERE home_score IS NOT NULL AND away_score IS NOT NULL ORDER BY date\<close>,
  so a row of the games frame is a completed game: both scores are integers.
\<close>

type_synonym float = "rat option"

datatype error = ValueError

record game =
  game_id :: int
  date :: int
  home_team_id :: int
  away_team_id :: int
  home_score :: int
  away_score :: int

record team_game =
  tg_game_id :: int
  tg_date :: int
  team_id :: int
  opp_id :: int
  runs_for :: int
  runs_against :: int
  is_home :: int
  win :: int

section \<open>\<open>team_game_view\<close>: the Team-Game Flattener\<close>

text \<open>
  \<^verbatim>\<open>
  home = games[["game_id","date","home_team_id","away_team_id","home_score","away_score"]].copy()
  home.columns = ["game_id","date","team_id","opp_id","runs_for","runs_against"]
  home["is_home"] = 1
  away = games[["game_id","date","away_team_id","home_team_id","away_score","home_score"]].copy()
  away.columns = ["game_id","date","team_id","opp_id","runs_for","runs_against"]
  away["is_home"] = 0
  df = pd.concat([home, away], ignore_index=True)
  df["win"] = (df["runs_for"] > df["runs_against"]).astype(int)
  \<close>
  The \<open>win\<close> column is added after the concatenation; \<open>set_win\<close> is that last line on
  one row.
\<close>

definition home_view :: "game \<Rightarrow> team_game" where
  "home_view g = \<lparr>tg_game_id = game_id g, tg_date = date g, team_id = home_team_id g,
     opp_id = away_team_id g, runs_for = home_score g, runs_against = away_score g,
     is_home = 1, win = 0\<rparr>"

definition away_view :: "game \<Rightarrow> team_game" where
  "away_view g = \<lparr>tg_game_id = game_id g, tg_date = date g, team_id = away_team_id g,
     opp_id = home_team_id g, runs_for = away_score g, runs_against = home_score g,
     is_home = 0, win = 0\<rparr>"

definition set_win :: "team_game \<Rightarrow> team_game" where
  "set_win r = r\<lparr>win := (if runs_for r > runs_against r then 1 else 0)\<rparr>"

definition team_game_view :: "game list \<Rightarrow> team_game list" where
  "team_game_view games = map set_win (map home_view games @ map away_view games)"

section \<open>\<open>_Roll.winpct\<close> and \<open>rolling_win_pct\<close>: the Rolling-Form Calculator\<close>

text \<open>
  \<^verbatim>\<open>
  def winpct(self, window=10):
      s = self._obj["win"].rolling(window, min_periods=max(1, window//2)).mean()
      return s

  def rolling_win_pct(df, team_id, window=10):
      t = df[df.team_id == team_id].sort_values("date").copy()
      t["rolling_win_pct"] = t.roll.winpct(window)
      return t
  \<close>
  \<open>Series.rolling(window, min_periods)\<close> is pandas; the model follows its contract. The
  constructor validates its arguments and raises \<open>ValueError\<close> when \<open>min_periods\<close> is
  negative, when \<open>min_periods > window\<close> and when \<open>window\<close> is negative. \<open>.mean()\<close> then
  gives, at position \<open>i\<close>, the mean of the values at positions \<open>i - window + 1, \<dots>, i\<close>
  that exist (\<open>window_at\<close>), and NaN when these are fewer than \<open>min_periods\<close> or none.
  The \<open>win\<close> column holds integers, never NaN, so every position in the window counts as
  an observation. The mean is the exact quotient; the sums of the 0/1 flags are exact in
  double arithmetic too, so the double result is this quotient rounded once.

  \<open>sort_values("date")\<close> is modelled by the stable \<open>sort_key\<close>. (pandas' default sort kind
  leaves the order of rows with equal dates open; the theorems below speak about the
  sorted frame itself and do not depend on how ties are ordered.)
\<close>

definition window_at :: "nat \<Rightarrow> 'a list \<Rightarrow> nat \<Rightarrow> 'a list" where
  "window_at W xs i = drop (Suc i - W) (take (Suc i) xs)"

definition mean :: "int list \<Rightarrow> rat" where
  "mean w = of_int (sum_list w) / of_nat (length w)"

definition rolling_mean :: "nat \<Rightarrow> nat \<Rightarrow> int list \<Rightarrow> float list" where
  "rolling_mean W mp xs =
     map (\<lambda>i. let w = window_at W xs i
              in if length w \<ge> mp \<and> length w > 0 then Some (mean w) else None)
         [0..<length xs]"

definition rolling :: "int \<Rightarrow> int \<Rightarrow> int list \<Rightarrow> error + float list" where
  "rolling window min_periods xs =
     (if min_periods < 0 then Inl ValueError
      else if min_periods > window then Inl ValueError
      else if window < 0 then Inl ValueError
      else Inr (rolling_mean (nat window) (nat min_periods) xs))"

definition winpct :: "team_game list \<Rightarrow> int \<Rightarrow> error + float list" where
  "winpct obj window = rolling window (max 1 (window div 2)) (map win obj)"

record tg_roll = team_game +
  rolling_pct :: float

definition annotate :: "team_game \<Rightarrow> float \<Rightarrow> tg_roll" where
  "annotate r v = team_game.extend r (tg_roll.fields v)"

definition rolling_win_pct :: "team_game list \<Rightarrow> int \<Rightarrow> int \<Rightarrow> error + tg_roll list" where
  "rolling_win_pct df team window =
     (let t = sort_key tg_date (filter (\<lambda>r. team_id r = team) df)
      in case winpct t window of
           Inl e \<Rightarrow> Inl e
         | Inr s \<Rightarrow> Inr (map2 annotate t s))"

text \<open>
  The positions of the trailing window of size \<open>W\<close> that ends at position \<open>i\<close>, the
  current row included.
\<close>

definition trailing :: "nat \<Rightarrow> nat \<Rightarrow> nat set" where
  "trailing W i = {j. j \<le> i \<and> i < j + W}"

section \<open>\<open>build_home_win_dataset\<close>: the Home-Win Dataset Builder\<close>

text \<open>
  \<^verbatim>\<open>
  def build_home_win_dataset(games):
      df = games.copy()
      tg = TEAM_GAMES.sort_values(["team_id", "date"]).copy()
      tg["r10"] = tg.groupby("team_id")["win"].transform(
                      lambda s: s.rolling(10, min_periods=5).mean())
      home = tg[tg.is_home == 1][["game_id", "team_id", "date", "r10"]]
      away = tg[tg.is_home == 0][["game_id", "team_id", "date", "r10"]]
      home.columns = ["game_id", "home_team_id", "date", "home_r10"]
      away.columns = ["game_id", "away_team_id", "date", "away_r10"]
      m = df.merge(home, on=["game_id", "date", "home_team_id"], how="left")
      m = m.merge(away, on=["game_id", "date", "away_team_id"], how="left")
      m["home_win"] = (m.home_score > m.away_score).astype(int)
      m["r10_diff"] = m["home_r10"].fillna(0.5) - m["away_r10"].fillna(0.5)
      m["is_home"] = 1
      return m.dropna(subset=["home_r10", "away_r10"])
  \<close>
  The function reads the module-level frame \<open>TEAM_GAMES\<close>; the model takes it as its
  first argument.

  \<open>group_rolling\<close> is \<open>groupby("team_id")["win"].transform(\<dots>)\<close>: the row in position
  \<open>i\<close> receives the entry of the rolling mean of its own team's \<open>win\<close> series at the
  row's position \<open>p\<close> within that series. \<open>rolling(10, min_periods=5)\<close> passes the
  argument validation (lemma \<open>rolling_10_5\<close>), so the means are used directly.
  The sort on two columns is pandas' stable lexicographic sort. \<open>merge_left\<close> is
  \<open>merge(\<dots>, how="left")\<close>: the rows of the left frame in their order, each once per
  matching row of the right frame (in the right frame's order), and once with NaN when
  nothing matches. \<open>derive\<close> is the three column assignments on one merged row.
\<close>

record tg_r10 = team_game +
  r10 :: float

definition with_r10 :: "team_game \<Rightarrow> float \<Rightarrow> tg_r10" where
  "with_r10 r v = team_game.extend r (tg_r10.fields v)"

definition group_rolling :: "nat \<Rightarrow> nat \<Rightarrow> team_game list \<Rightarrow> float list" where
  "group_rolling W mp tg =
     map (\<lambda>i. let k = team_id (tg ! i);
                  grp = filter (\<lambda>r. team_id r = k) tg;
                  p = length (filter (\<lambda>r. team_id r = k) (take i tg))
              in rolling_mean W mp (map win grp) ! p)
         [0..<length tg]"

definition add_r10 :: "team_game list \<Rightarrow> tg_r10 list" where
  "add_r10 team_games =
     (let tg = sort_key (\<lambda>r. (team_id r, tg_date r)) team_games
      in map2 with_r10 tg (group_rolling 10 5 tg))"

definition merge_left :: "('a \<Rightarrow> tg_r10 \<Rightarrow> bool) \<Rightarrow> 'a list \<Rightarrow> tg_r10 list \<Rightarrow> ('a \<times> float) list" where
  "merge_left on left right =
     concat (map (\<lambda>g. case filter (on g) right of
                        [] \<Rightarrow> [(g, None)]
                      | h # hs \<Rightarrow> map (\<lambda>x. (g, r10 x)) (h # hs)) left)"

record hw_row = game +
  home_r10 :: float
  away_r10 :: float
  home_win :: int
  r10_diff :: float
  hw_is_home :: int

definition fillna :: "float \<Rightarrow> rat \<Rightarrow> rat" where
  "fillna v d = (case v of None \<Rightarrow> d | Some x \<Rightarrow> x)"

definition derive :: "(game \<times> float) \<times> float \<Rightarrow> hw_row" where
  "derive gha = (case gha of ((g, h), a) \<Rightarrow>
     game.extend g (hw_row.fields h a (if home_score g > away_score g then 1 else 0)
        (Some (fillna h (1 / 2) - fillna a (1 / 2))) 1))"

definition build_home_win_dataset :: "team_game list \<Rightarrow> game list \<Rightarrow> hw_row list" where
  "build_home_win_dataset team_games games =
     (let tg = add_r10 team_games;
          home = filter (\<lambda>r. is_home r = 1) tg;
          away = filter (\<lambda>r. is_home r = 0) tg;
          m1 = merge_left (\<lambda>g h. game_id g = tg_game_id h \<and> date g = tg_date h
                                 \<and> home_team_id g = team_id h) games home;
          m2 = merge_left (\<lambda>gh a. game_id (fst gh) = tg_game_id a \<and> date (fst gh) = tg_date a
                                 \<and> away_team_id (fst gh) = team_id a) m1 away;
          m = map derive m2
      in filter (\<lambda>r. home_r10 r \<noteq> None \<and> away_r10 r \<noteq> None) m)"

section \<open>\<open>render_tab\<close>: the Win-Probability Estimator\<close>

text \<open>
  \<^verbatim>\<open>
  def render_tab(tab, team_id, window, start_date, end_date):
      start = pd.to_datetime(start_date); end = pd.to_datetime(end_date)
      if tab == "tab-trend":
          df = rolling_win_pct(TEAM_GAMES, team_id, window)
          df = df[(df.date >= start) & (df.date <= end)]
          ... return html.Div([dcc.Graph(figure=fig), html.Div(f"Games shown: {len(df)}")])
      if tab == "tab-runs":
          df = TEAM_GAMES[TEAM_GAMES.team_id == team_id].copy()
          df = df[(df.date >= start) & (df.date <= end)]
          df["run_diff"] = df["runs_for"] - df["runs_against"]
          ... return html.Div([dcc.Graph(figure=fig), html.Div(f"Games shown: {len(df)}")])
      ds = HOME_DS[(HOME_DS.date >= start) & (HOME_DS.date <= end)]
               .dropna(subset=["r10_diff"]).copy()
      if len(ds) < 50:
          return html.Div("Not enough historical games in selected range ...")
      X = ds[["r10_diff", "is_home"]].values
      y = ds["home_win"].values
      split_idx = int(len(ds) * 0.8)
      X_train, X_test = X[:split_idx], X[split_idx:]
      y_train, y_test = y[:split_idx], y[split_idx:]
      model = LogisticRegression(max_iter=1000)
      model.fit(X_train, y_train)
      proba = model.predict_proba(X_test)[:,1]
      auc = roc_auc_score(y_test, proba)
      coef = pd.DataFrame({"feature": ["r10_diff", "is_home"], "coef": model.coef_[0]})
      fig_coef = px.bar(coef, ..., title=f"Model Coefficients (AUC={auc:.3f})")
      test_view = ds.iloc[split_idx:].copy()
      test_view = test_view.assign(pred_home_win=proba)
      test_view = test_view[[...]]
      test_view["home"] = test_view["home_team_id"].map(ABBR_BY_ID)
      test_view["away"] = test_view["away_team_id"].map(ABBR_BY_ID)
      tbl = test_view.tail(20)
      return html.Div([dcc.Graph(figure=fig_coef), ..., dcc.Graph(figure=px.scatter(tbl, ...))])
  \<close>
  The module-level frames and the lookup table that the callback reads are the record
  \<open>env\<close>. scikit-learn is not part of the program: the classifier and the scorer are the
  parameter \<open>sk\<close>, a record of functions, where \<open>fit\<close> and \<open>roc_auc_score\<close> may raise. The
  calls that \<open>render_tab\<close> makes to it are recorded, in order and with their arguments,
  in the first component of the result; the second component is the exception that leaves
  \<open>render_tab\<close> or the view it returns. A view is the data that the returned page shows:
  the rows of a chart and the count under it, the message, or the coefficients, the AUC of
  the chart title and the table of the last evaluation rows.

  \<open>split_idx\<close> is \<open>int(len(ds) * 0.8)\<close> in exact arithmetic. The double nearest to 0.8
  lies above 4/5 by less than \<open>5 / 10 ^ 17\<close>, and the product is rounded to the nearest
  double, so for every frame length below \<open>10 ^ 15\<close> the truncated double product is the
  same integer. \<open>test_view\<close> pairs the evaluation rows with the predicted probabilities
  in order (\<open>predict_proba\<close> returns one row per row of its argument).
\<close>

record 'm sklearn =
  fit :: "float list list \<Rightarrow> int list \<Rightarrow> error + 'm"
  predict_proba :: "'m \<Rightarrow> float list list \<Rightarrow> float list"
  coef :: "'m \<Rightarrow> float list"
  roc_auc_score :: "int list \<Rightarrow> float list \<Rightarrow> error + float"

datatype call =
  Fit "float list list" "int list"
| PredictProba "float list list"
| RocAuc "int list" "float list"

record env =
  TEAM_GAMES :: "team_game list"
  HOME_DS :: "hw_row list"
  ABBR_BY_ID :: "int \<rightharpoonup> string"

record run_row = team_game +
  run_diff :: int

record test_row =
  t_date :: int
  t_home_team_id :: int
  t_away_team_id :: int
  t_home_score :: int
  t_away_score :: int
  t_home_win :: int
  t_home_r10 :: float
  t_away_r10 :: float
  pred_home_win :: float
  home :: "string option"
  away :: "string option"

datatype view =
  TrendView "tg_roll list" nat
| RunsView "run_row list" nat
| NotEnough
| ModelView "float list" float "test_row list"

definition split_idx :: "nat \<Rightarrow> nat" where
  "split_idx n = nat \<lfloor>of_nat n * (0.8 :: rat)\<rfloor>"

definition model_ds :: "env \<Rightarrow> int \<Rightarrow> int \<Rightarrow> hw_row list" where
  "model_ds e start end =
     filter (\<lambda>r. r10_diff r \<noteq> None) (filter (\<lambda>r. start \<le> date r \<and> date r \<le> end) (HOME_DS e))"

definition features_of :: "hw_row \<Rightarrow> float list" where
  "features_of r = [r10_diff r, Some (of_int (hw_is_home r))]"

definition test_view :: "env \<Rightarrow> hw_row list \<Rightarrow> float list \<Rightarrow> test_row list" where
  "test_view e rows proba =
     map2 (\<lambda>r p. \<lparr>t_date = date r, t_home_team_id = home_team_id r,
               t_away_team_id = away_team_id r, t_home_score = home_score r,
               t_away_score = away_score r, t_home_win = home_win r,
               t_home_r10 = home_r10 r, t_away_r10 = away_r10 r, pred_home_win = p,
               home = ABBR_BY_ID e (home_team_id r), away = ABBR_BY_ID e (away_team_id r)\<rparr>)
       rows proba"

definition tail :: "nat \<Rightarrow> 'a list \<Rightarrow> 'a list" where
  "tail n xs = drop (length xs - n) xs"

definition render_model :: "'m sklearn \<Rightarrow> env \<Rightarrow> int \<Rightarrow> int \<Rightarrow> call list \<times> (error + view)" where
  "render_model sk e start end =
     (let ds = model_ds e start end
      in if length ds < 50 then ([], Inr NotEnough)
         else
           let X = map features_of ds;
               y = map home_win ds;
               split = split_idx (length ds);
               X_train = take split X; X_test = drop split X;
               y_train = take split y; y_test = drop split y
           in case fit sk X_train y_train of
                Inl err \<Rightarrow> ([Fit X_train y_train], Inl err)
              | Inr model \<Rightarrow>
                  let proba = predict_proba sk model X_test
                  in case roc_auc_score sk y_test proba of
                       Inl err \<Rightarrow>
                         ([Fit X_train y_train, PredictProba X_test, RocAuc y_test proba],
                          Inl err)
                     | Inr auc \<Rightarrow>
                         ([Fit X_train y_train, PredictProba X_test, RocAuc y_test proba],
                          Inr (ModelView (coef sk model) auc
                                 (tail 20 (test_view e (drop split ds) proba)))))"

definition render_tab ::
  "'m sklearn \<Rightarrow> env \<Rightarrow> string \<Rightarrow> int \<Rightarrow> int \<Rightarrow> int \<Rightarrow> int \<Rightarrow> call list \<times> (error + view)" where
  "render_tab sk e tab team window start end =
     (if tab = ''tab-trend'' then
        (case rolling_win_pct (TEAM_GAMES e) team window of
           Inl err \<Rightarrow> ([], Inl err)
         | Inr t \<Rightarrow>
             let df = filter (\<lambda>r. start \<le> tg_date r \<and> tg_date r \<le> end) t
             in ([], Inr (TrendView df (length df))))
      else if tab = ''tab-runs'' then
        (let df = filter (\<lambda>r. start \<le> tg_date r \<and> tg_date r \<le> end)
                    (filter (\<lambda>r. team_id r = team) (TEAM_GAMES e));
             df' = map (\<lambda>r. team_game.extend r (run_row.fields (runs_for r - runs_against r))) df
         in ([], Inr (RunsView df' (length df'))))
      else render_model sk e start end)"

section \<open>Concrete frames\<close>

text \<open>
  Small inputs on which the functions are run below. \<open>season n\<close> is \<open>n\<close> games
  between the same two teams on consecutive dates, the home team winning the games with an
  even number. \<open>sample_env k n\<close> holds a dataset of \<open>n\<close> rows in which the home team
  wins the even rows and every row from \<open>k\<close> on.

  \<open>stub_sklearn\<close> stands for scikit-learn on these inputs. Its \<open>fit\<close> and its
  \<open>roc_auc_score\<close> refuse labels of a single class with \<open>ValueError\<close>, which is what
  \<open>LogisticRegression.fit\<close> does and what \<open>roc_auc_score\<close> does in the releases that
  raise "Only one class present in y_true" (later releases warn and return NaN instead).
  The fitted model predicts 1/2 for every row, and the score is the rank statistic: the
  share of pairs of a positive and a negative row that the scores order correctly, ties
  counting half.
\<close>

definition tied_game :: game where
  "tied_game = \<lparr>game_id = 1, date = 0, home_team_id = 10, away_team_id = 20,
     home_score = 3, away_score = 3\<rparr>"

definition played_game :: game where
  "played_game = \<lparr>game_id = 2, date = 1, home_team_id = 10, away_team_id = 20,
     home_score = 5, away_score = 2\<rparr>"

definition sample_row :: "int \<Rightarrow> int \<Rightarrow> int \<Rightarrow> team_game" where
  "sample_row d t w = \<lparr>tg_game_id = d, tg_date = d, team_id = t, opp_id = 0, runs_for = w,
     runs_against = 0, is_home = 1, win = w\<rparr>"

definition trend_df :: "team_game list" where
  "trend_df = [sample_row 3 1 1, sample_row 2 1 0, sample_row 1 2 1, sample_row 0 1 1]"

definition form_rows :: "team_game list" where
  "form_rows = [sample_row 0 1 1, sample_row 2 1 0, sample_row 3 1 1]"

definition streak_df :: "team_game list" where
  "streak_df = [sample_row 1 1 0, sample_row 2 1 0, sample_row 3 1 0, sample_row 4 1 0,
     sample_row 5 1 1]"

definition season :: "nat \<Rightarrow> game list" where
  "season n = map (\<lambda>i. \<lparr>game_id = int i, date = int i, home_team_id = 1, away_team_id = 2,
      home_score = (if even i then 4 else 1), away_score = 2\<rparr>) [0..<n]"

definition fifth_game :: hw_row where
  "fifth_game = \<lparr>game_id = 4, date = 4, home_team_id = 1, away_team_id = 2, home_score = 4,
     away_score = 2, home_r10 = Some (3 / 5), away_r10 = Some (2 / 5), home_win = 1,
     r10_diff = Some (1 / 5), hw_is_home = 1\<rparr>"

definition pair_score :: "rat \<Rightarrow> rat \<Rightarrow> rat" where
  "pair_score a b = (if a > b then 1 else if a = b then 1 / 2 else 0)"

definition rank_auc :: "int list \<Rightarrow> rat list \<Rightarrow> rat" where
  "rank_auc y p =
     (let pos = map snd (filter (\<lambda>yp. fst yp = 1) (zip y p));
          neg = map snd (filter (\<lambda>yp. fst yp \<noteq> 1) (zip y p))
      in sum_list (concat (map (\<lambda>a. map (pair_score a) neg) pos))
           / of_nat (length pos * length neg))"

definition stub_sklearn :: "unit sklearn" where
  "stub_sklearn =
     \<lparr>fit = (\<lambda>X y. if length (remdups y) < 2 then Inl ValueError else Inr ()),
      predict_proba = (\<lambda>m X. map (\<lambda>x. Some (1 / 2)) X),
      coef = (\<lambda>m. [Some 0, Some 0]),
      roc_auc_score = (\<lambda>y p. if length (remdups y) \<noteq> 2 then Inl ValueError
                              else case those p of None \<Rightarrow> Inl ValueError
                                   | Some q \<Rightarrow> Inr (Some (rank_auc y q)))\<rparr>"

definition sample_hw :: "nat \<Rightarrow> nat \<Rightarrow> hw_row" where
  "sample_hw k i = \<lparr>game_id = int i, date = int i, home_team_id = 1, away_team_id = 2,
     home_score = (if even i \<or> k \<le> i then 4 else 1), away_score = 2,
     home_r10 = Some (1 / 2), away_r10 = Some (1 / 2),
     home_win = (if even i \<or> k \<le> i then 1 else 0), r10_diff = Some 0, hw_is_home = 1\<rparr>"

definition sample_env :: "nat \<Rightarrow> nat \<Rightarrow> env" where
  "sample_env k n = \<lparr>TEAM_GAMES = [], HOME_DS = map (sample_hw k) [0..<n],
     ABBR_BY_ID = [1 \<mapsto> ''NYY'', 2 \<mapsto> ''BOS'']\<rparr>"

section \<open>Properties of the flattener\<close>

lemma set_win_game_id: "tg_game_id (set_win r) = tg_game_id r"
  by (simp add: set_win_def)

lemma filter_single_distinct:
  "distinct (map f xs) \<Longrightarrow> g \<in> set xs \<Longrightarrow> filter (\<lambda>x. f x = f g) xs = [g]"
proof (induction xs)
  case Nil
  then show ?case by simp
next
  case (Cons a xs)
  show ?case
  proof (cases "a = g")
    case True
    have "f g \<notin> f ` set xs"
      using Cons.prems(1) True by simp
    then have "\<And>x. x \<in> set xs \<Longrightarrow> f x \<noteq> f g"
      by (metis imageI)
    then have "filter (\<lambda>x. f x = f g) xs = []"
      by (simp add: filter_empty_conv)
    with True show ?thesis by simp
  next
    case False
    with Cons.prems have "g \<in> set xs" and "f a \<noteq> f g" by auto
    with Cons show ?thesis by simp
  qed
qed

lemma rows_of_game:
  assumes "distinct (map game_id games)" and "g \<in> set games"
  shows "filter (\<lambda>r. tg_game_id r = game_id g) (team_game_view games)
         = [set_win (home_view g), set_win (away_view g)]"
proof -
  have h: "filter (\<lambda>r. tg_game_id r = game_id g) (map set_win (map home_view games))
           = map set_win (map home_view (filter (\<lambda>x. game_id x = game_id g) games))"
    by (simp add: filter_map o_def set_win_game_id home_view_def)
  have a: "filter (\<lambda>r. tg_game_id r = game_id g) (map set_win (map away_view games))
           = map set_win (map away_view (filter (\<lambda>x. game_id x = game_id g) games))"
    by (simp add: filter_map o_def set_win_game_id away_view_def)
  have "filter (\<lambda>x. game_id x = game_id g) games = [g]"
    using assms by (rule filter_single_distinct)
  with h a show ?thesis
    unfolding team_game_view_def by simp
qed

text \<open>
  C4 (as amended). With pairwise distinct game ids (\<open>game_id\<close> is the primary key of the
  games table), the rows of \<open>team_game_view games\<close> that carry the id of a game \<open>g\<close> are
  exactly two, the home row (\<open>is_home = 1\<close>) followed by the away row (\<open>is_home = 0\<close>);
  on each, \<open>win = 1\<close> iff \<open>runs_for > runs_against\<close> and \<open>win = 0\<close> otherwise. The win
  flags of the pair add up to 1 when the two scores differ and to 0 when the game is tied.
\<close>

theorem team_game_view_pair:
  assumes "distinct (map game_id games)" and "g \<in> set games"
  shows "\<exists>h a. filter (\<lambda>r. tg_game_id r = game_id g) (team_game_view games) = [h, a]
           \<and> is_home h = 1 \<and> is_home a = 0
           \<and> team_id h = home_team_id g \<and> team_id a = away_team_id g
           \<and> runs_for h = home_score g \<and> runs_against h = away_score g
           \<and> runs_for a = away_score g \<and> runs_against a = home_score g
           \<and> win h = (if runs_for h > runs_against h then 1 else 0)
           \<and> win a = (if runs_for a > runs_against a then 1 else 0)
           \<and> win h + win a = (if home_score g = away_score g then 0 else 1)"
proof -
  have "filter (\<lambda>r. tg_game_id r = game_id g) (team_game_view games)
        = [set_win (home_view g), set_win (away_view g)]"
    using assms by (rule rows_of_game)
  then show ?thesis
    by (simp add: set_win_def home_view_def away_view_def)
qed

theorem team_game_view_pair_witness:
  "distinct (map game_id [tied_game, played_game]) \<and> played_game \<in> set [tied_game, played_game]
   \<and> (\<exists>h a. filter (\<lambda>r. tg_game_id r = game_id played_game)
               (team_game_view [tied_game, played_game]) = [h, a]
        \<and> is_home h = 1 \<and> is_home a = 0 \<and> win h + win a = 1)"
proof -
  have d: "distinct (map game_id [tied_game, played_game])"
    by (simp add: tied_game_def played_game_def)
  have m: "played_game \<in> set [tied_game, played_game]" by simp
  from team_game_view_pair [OF d m] obtain h a where
    "filter (\<lambda>r. tg_game_id r = game_id played_game)
       (team_game_view [tied_game, played_game]) = [h, a]"
    "is_home h = 1" "is_home a = 0"
    "win h + win a = (if home_score played_game = away_score played_game then 0 else 1)"
    by blast
  moreover have "home_score played_game \<noteq> away_score played_game"
    by (simp add: played_game_def)
  ultimately show ?thesis using d m by auto
qed

text \<open>
  The claim as the specification states it (the win flags of the pair always add up to 1)
  fails on a tied game: both rows have \<open>runs_for = runs_against\<close>, so both flags are 0.
\<close>

theorem team_game_view_tie_counterexample:
  "map tg_game_id (team_game_view [tied_game]) = [1, 1]
   \<and> map win (team_game_view [tied_game]) = [0, 0]
   \<and> sum_list (map win (team_game_view [tied_game])) \<noteq> 1"
  by (simp add: team_game_view_def set_win_def home_view_def away_view_def tied_game_def)

section \<open>Properties of the rolling mean\<close>

lemma trailing_interval: "trailing W i = {Suc i - W..<Suc i}"
  by (auto simp: trailing_def)

lemma card_trailing: "card (trailing W i) = min (Suc i) W"
  by (simp add: trailing_interval)

lemma drop_take_nth: "b \<le> length xs \<Longrightarrow> drop a (take b xs) = map ((!) xs) [a..<b]"
  by (rule nth_equalityI) auto

lemma window_at_nth:
  "i < length xs \<Longrightarrow> window_at W xs i = map ((!) xs) [Suc i - W..<Suc i]"
  unfolding window_at_def by (rule drop_take_nth) simp

lemma length_window_at: "i < length xs \<Longrightarrow> length (window_at W xs i) = min (Suc i) W"
  unfolding window_at_def by simp

lemma window_at_empty: "i < length xs \<Longrightarrow> window_at W xs i = [] \<longleftrightarrow> W = 0"
  using length_window_at [of i xs W] by (cases "window_at W xs i") auto

lemma sum_window_at:
  "i < length xs \<Longrightarrow> sum_list (window_at W xs i) = (\<Sum>j\<in>trailing W i. xs ! j)"
  by (simp add: window_at_nth trailing_interval interv_sum_list_conv_sum_set_nat)

lemma length_rolling_mean: "length (rolling_mean W mp xs) = length xs"
  by (simp add: rolling_mean_def)

lemma rolling_mean_nth:
  assumes "i < length xs"
  shows "rolling_mean W mp xs ! i =
     (if mp \<le> card (trailing W i) \<and> 0 < card (trailing W i)
      then Some (of_int (\<Sum>j\<in>trailing W i. xs ! j) / of_nat (card (trailing W i)))
      else None)"
  using assms
  by (simp add: rolling_mean_def Let_def mean_def sum_window_at length_window_at
      window_at_empty card_trailing)

lemma winpct_valid:
  "1 \<le> W \<Longrightarrow> winpct t W = Inr (rolling_mean (nat W) (nat (max 1 (W div 2))) (map win t))"
  by (simp add: winpct_def rolling_def)

lemma winpct_invalid: "W < 1 \<Longrightarrow> winpct t W = Inl ValueError"
  by (simp add: winpct_def rolling_def)

lemma winpct_Inr_valid: "winpct t W = Inr s \<Longrightarrow> 1 \<le> W"
  by (rule ccontr) (simp add: winpct_invalid)

lemma truncate_annotate: "team_game.truncate (annotate r v) = r"
  by (simp add: annotate_def team_game.extend_def team_game.truncate_def tg_roll.fields_def)

lemma rolling_pct_annotate: "rolling_pct (annotate r v) = v"
  by (simp add: annotate_def team_game.extend_def tg_roll.fields_def)

lemma win_annotate: "win (annotate r v) = win r"
  by (simp add: annotate_def team_game.extend_def tg_roll.fields_def)

lemma tg_date_annotate: "tg_date (annotate r v) = tg_date r"
  by (simp add: annotate_def team_game.extend_def tg_roll.fields_def)

lemma team_id_annotate: "team_id (annotate r v) = team_id r"
  by (simp add: annotate_def team_game.extend_def tg_roll.fields_def)

lemma rolling_win_pct_valid:
  assumes "1 \<le> W"
  shows "rolling_win_pct df team W =
     Inr (map2 annotate (sort_key tg_date (filter (\<lambda>r. team_id r = team) df))
            (rolling_mean (nat W) (nat (max 1 (W div 2)))
               (map win (sort_key tg_date (filter (\<lambda>r. team_id r = team) df)))))"
  using assms by (simp add: rolling_win_pct_def winpct_valid Let_def)

lemma truncate_map2_annotate:
  "length t = length s \<Longrightarrow> map team_game.truncate (map2 annotate t s) = t"
  by (induction t s rule: list_induct2) (auto simp: truncate_annotate)

text \<open>
  The frame returned for a valid window: the team's rows in date order, and at every
  position the value of the new column.
\<close>

lemma rolling_win_pct_rows:
  assumes "1 \<le> W" and res: "rolling_win_pct df team W = Inr t"
  shows "map team_game.truncate t = sort_key tg_date (filter (\<lambda>r. team_id r = team) df)"
    and "\<And>i. i < length t \<Longrightarrow> rolling_pct (t ! i) =
          (if i + 1 < nat (max 1 (W div 2)) then None
           else Some (of_int (\<Sum>j\<in>trailing (nat W) i. win (t ! j))
                        / of_nat (card (trailing (nat W) i))))"
proof -
  define rows where "rows = sort_key tg_date (filter (\<lambda>r. team_id r = team) df)"
  define s where "s = rolling_mean (nat W) (nat (max 1 (W div 2))) (map win rows)"
  have len_s: "length s = length rows"
    by (simp add: s_def length_rolling_mean)
  have t_def: "t = map2 annotate rows s"
    using assms by (simp add: rolling_win_pct_valid s_def rows_def)
  have len_t: "length t = length rows"
    by (simp add: t_def len_s)
  show "map team_game.truncate t = sort_key tg_date (filter (\<lambda>r. team_id r = team) df)"
    unfolding t_def rows_def [symmetric] using len_s [symmetric]
    by (rule truncate_map2_annotate)
  have wins: "\<And>j. j < length t \<Longrightarrow> win (t ! j) = map win rows ! j"
    unfolding t_def using len_s by (auto simp: win_annotate)
  show "rolling_pct (t ! i) =
          (if i + 1 < nat (max 1 (W div 2)) then None
           else Some (of_int (\<Sum>j\<in>trailing (nat W) i. win (t ! j))
                        / of_nat (card (trailing (nat W) i))))" if i: "i < length t" for i
  proof -
    define fl where "fl = nat (max 1 (W div 2))"
    define n where "n = card (trailing (nat W) i)"
    have a: "rolling_pct (t ! i) = s ! i"
      unfolding t_def using i len_s len_t by (simp add: rolling_pct_annotate)
    have b: "s ! i = (if fl \<le> n \<and> 0 < n
        then Some (of_int (\<Sum>j\<in>trailing (nat W) i. map win rows ! j) / of_nat n)
        else None)"
      unfolding s_def fl_def n_def using i len_t by (simp add: rolling_mean_nth)
    have c: "(\<Sum>j\<in>trailing (nat W) i. map win rows ! j)
             = (\<Sum>j\<in>trailing (nat W) i. win (t ! j))"
    proof (rule sum.cong)
      fix j assume "j \<in> trailing (nat W) i"
      then have "j < length t" using i by (simp add: trailing_def)
      then show "map win rows ! j = win (t ! j)" by (simp add: wins)
    qed simp
    have d: "(fl \<le> n \<and> 0 < n) \<longleftrightarrow> \<not> i + 1 < fl"
      unfolding fl_def n_def using assms(1) by (auto simp: card_trailing)
    have "rolling_pct (t ! i) = (if i + 1 < fl then None
        else Some (of_int (\<Sum>j\<in>trailing (nat W) i. win (t ! j)) / of_nat n))"
      unfolding a b c d by simp
    then show ?thesis unfolding fl_def n_def .
  qed
qed

lemma rolling_win_pct_returns:
  "1 \<le> W \<Longrightarrow> \<exists>t. rolling_win_pct df team W = Inr t"
  by (simp add: rolling_win_pct_valid)

section \<open>Claims about the Rolling-Form Calculator\<close>

text \<open>
  C2. For a window \<open>W \<ge> 1\<close>, \<open>rolling_win_pct df team W\<close> returns the rows of \<open>df\<close> of that
  team (each once per occurrence), in ascending date order, and the new column holds at
  the row in position \<open>i\<close> the mean of the win flags of the rows in the trailing window
  of \<open>W\<close> positions that ends at \<open>i\<close> (the current row included); the value is absent
  exactly when the rows up to and including the current one are fewer than the floor
  \<open>max 1 (W div 2)\<close>.
\<close>

theorem rolling_win_pct_trailing_mean:
  assumes "1 \<le> W"
  shows "\<exists>t. rolling_win_pct df team W = Inr t
     \<and> mset (map team_game.truncate t) = filter_mset (\<lambda>r. team_id r = team) (mset df)
     \<and> sorted (map tg_date t)
     \<and> (\<forall>i<length t. rolling_pct (t ! i) =
          (if i + 1 < nat (max 1 (W div 2)) then None
           else Some (of_int (\<Sum>j\<in>trailing (nat W) i. win (t ! j))
                        / of_nat (card (trailing (nat W) i)))))"
proof -
  from assms obtain t where res: "rolling_win_pct df team W = Inr t"
    using rolling_win_pct_returns by blast
  note rows = rolling_win_pct_rows(1) [OF assms res]
  have m: "mset (map team_game.truncate t) = filter_mset (\<lambda>r. team_id r = team) (mset df)"
    by (simp add: rows)
  have "map tg_date t = map tg_date (map team_game.truncate t)"
    by (simp add: team_game.truncate_def)
  then have srt: "sorted (map tg_date t)"
    by (simp add: rows)
  from res m srt rolling_win_pct_rows(2) [OF assms res] show ?thesis by blast
qed

theorem rolling_win_pct_trailing_mean_witness:
  "(1::int) \<le> 4 \<and> (\<exists>t. rolling_win_pct trend_df 1 4 = Inr t \<and> length t = 3
      \<and> sorted (map tg_date t)
      \<and> rolling_pct (t ! 0) = None \<and> rolling_pct (t ! 2) = Some (2 / 3))"
proof -
  have h: "(1::int) \<le> 4" by simp
  from rolling_win_pct_trailing_mean [OF h, of trend_df 1] obtain t where
    r: "rolling_win_pct trend_df 1 4 = Inr t" and s: "sorted (map tg_date t)"
    and v: "\<forall>i<length t. rolling_pct (t ! i) =
          (if i + 1 < nat (max 1 (4 div 2)) then None
           else Some (of_int (\<Sum>j\<in>trailing (nat 4) i. win (t ! j))
                        / of_nat (card (trailing (nat 4) i))))"
    by blast
  have "rolling_win_pct trend_df 1 4 =
     Inr [annotate (sample_row 0 1 1) None, annotate (sample_row 2 1 0) (Some (1 / 2)),
          annotate (sample_row 3 1 1) (Some (2 / 3))]"
    by code_simp
  with r have t: "t = [annotate (sample_row 0 1 1) None,
      annotate (sample_row 2 1 0) (Some (1 / 2)), annotate (sample_row 3 1 1) (Some (2 / 3))]"
    by simp
  have l: "length t = 3" by (simp add: t)
  have tr: "trailing (nat 4) 2 = {0, 1, 2}"
    by (auto simp: trailing_def)
  from v l have "rolling_pct (t ! 0) = None" by simp
  moreover from v l have "rolling_pct (t ! 2) =
      Some (of_int (\<Sum>j\<in>trailing (nat 4) 2. win (t ! j)) / of_nat (card (trailing (nat 4) 2)))"
    by simp
  then have "rolling_pct (t ! 2) = Some (2 / 3)"
    unfolding tr by (simp add: t win_annotate sample_row_def)
  ultimately show ?thesis using h r s l by blast
qed

text \<open>
  C3 (as amended). In the frame \<open>rolling_win_pct df team W\<close> with \<open>W \<ge> 1\<close>, the row in
  position \<open>i\<close> has \<open>i\<close> strictly prior rows of the team. Its rolling form is taken over
  the trailing window that includes the row's own outcome, so it is absent exactly when
  \<open>i + 1\<close>, the prior rows and the current one, is below the floor \<open>max 1 (W div 2)\<close>:
  with floor \<open>- 1\<close> prior rows it is defined, with fewer it is absent.
\<close>

theorem rolling_win_pct_counts_current:
  assumes "1 \<le> W" and "rolling_win_pct df team W = Inr t" and "i < length t"
  shows "(rolling_pct (t ! i) = None \<longleftrightarrow> i + 1 < nat (max 1 (W div 2)))
     \<and> (\<forall>v. rolling_pct (t ! i) = Some v \<longrightarrow>
          v = (of_int (win (t ! i)) + of_int (\<Sum>j\<in>trailing (nat W) i - {i}. win (t ! j)))
                / of_nat (card (trailing (nat W) i)))"
proof -
  have v: "rolling_pct (t ! i) =
          (if i + 1 < nat (max 1 (W div 2)) then None
           else Some (of_int (\<Sum>j\<in>trailing (nat W) i. win (t ! j))
                        / of_nat (card (trailing (nat W) i))))"
    using assms by (rule rolling_win_pct_rows(2))
  have "finite (trailing (nat W) i)"
    by (simp add: trailing_interval)
  moreover have "i \<in> trailing (nat W) i"
    using assms(1) by (simp add: trailing_def)
  ultimately have "(\<Sum>j\<in>trailing (nat W) i. win (t ! j))
      = win (t ! i) + (\<Sum>j\<in>trailing (nat W) i - {i}. win (t ! j))"
    by (rule sum.remove)
  with v show ?thesis
    by (simp split: if_splits)
qed

theorem rolling_win_pct_counts_current_witness:
  "(1::int) \<le> 10 \<and> map_sum id (map win) (rolling_win_pct streak_df 1 10) = Inr [0, 0, 0, 0, 1]
   \<and> (\<exists>t. rolling_win_pct streak_df 1 10 = Inr t \<and> 4 < length t
        \<and> rolling_pct (t ! 3) = None \<and> rolling_pct (t ! 4) \<noteq> None)"
proof -
  have h: "(1::int) \<le> 10" by simp
  obtain t where r: "rolling_win_pct streak_df 1 10 = Inr t"
    using rolling_win_pct_returns [OF h] by blast
  have w: "map_sum id (map win) (rolling_win_pct streak_df 1 10) = Inr [0, 0, 0, 0, 1]"
    by code_simp
  with r have "map win t = [0, 0, 0, 0, 1]" by simp
  then have "length (map win t) = 5" by simp
  then have l3: "3 < length t" and l4: "4 < length t" by simp_all
  from rolling_win_pct_counts_current [OF h r l3] have "rolling_pct (t ! 3) = None" by simp
  moreover from rolling_win_pct_counts_current [OF h r l4] have "rolling_pct (t ! 4) \<noteq> None"
    by simp
  ultimately show ?thesis using h r w l4 by blast
qed

text \<open>
  The claim as the specification states it fails on a team with five games, four losses
  and then a win, at window 10 (floor 5). The fifth row has four prior rows, one fewer
  than the floor, and its rolling form is present; its value 1/5 comes from the row's
  own win, the four prior games being losses.
\<close>

theorem rolling_form_counterexample:
  "map_sum id (map win) (rolling_win_pct streak_df 1 10) = Inr [0, 0, 0, 0, 1]
   \<and> map_sum id (map rolling_pct) (rolling_win_pct streak_df 1 10)
     = Inr [None, None, None, None, Some (1 / 5)]"
  by code_simp

text \<open>
  C8. A window below 1 is rejected with \<open>ValueError\<close>: \<open>winpct\<close> computes
  \<open>min_periods = max 1 (window div 2) \<ge> 1 > window\<close>, which the validation of
  \<open>rolling\<close> refuses before any mean is taken, and \<open>rolling_win_pct\<close> passes the error
  on and returns no frame.
\<close>

theorem rolling_win_pct_rejects_window:
  assumes "W < 1"
  shows "winpct t W = Inl ValueError \<and> rolling_win_pct df team W = Inl ValueError"
  using assms by (simp add: rolling_win_pct_def winpct_invalid Let_def)

theorem rolling_win_pct_rejects_window_witness:
  "(0::int) < 1 \<and> winpct trend_df 0 = Inl ValueError
   \<and> rolling_win_pct trend_df 1 0 = Inl ValueError
   \<and> rolling_win_pct trend_df 1 (- 3) = Inl ValueError"
  using rolling_win_pct_rejects_window [of 0 trend_df trend_df 1]
    rolling_win_pct_rejects_window [of "- 3" trend_df trend_df 1] by simp

text \<open>
  C9. Where the rolling form at position \<open>i\<close> of a team's date-ordered rows is defined,
  turning the loss of a row inside the trailing window into a win, all other rows
  unchanged, leaves it defined and does not decrease it.
\<close>

theorem winpct_monotone:
  assumes "winpct t W = Inr s" and "i < length t" and "s ! i = Some v"
    and "j \<in> trailing (nat W) i" and "win (t ! j) = 0"
  shows "\<exists>s' v'. winpct (t[j := (t ! j)\<lparr>win := 1\<rparr>]) W = Inr s' \<and> s' ! i = Some v' \<and> v \<le> v'"
proof -
  define t' where "t' = t[j := (t ! j)\<lparr>win := 1\<rparr>]"
  define mp where "mp = nat (max 1 (W div 2))"
  define n where "n = card (trailing (nat W) i)"
  have W: "1 \<le> W" using assms(1) by (rule winpct_Inr_valid)
  have s: "s = rolling_mean (nat W) mp (map win t)"
    using assms(1) W by (simp add: winpct_valid mp_def)
  have s': "winpct t' W = Inr (rolling_mean (nat W) mp (map win t'))"
    using W by (simp add: winpct_valid mp_def)
  have len: "length t' = length t" by (simp add: t'_def)
  have old: "s ! i = (if mp \<le> n \<and> 0 < n
      then Some (of_int (\<Sum>k\<in>trailing (nat W) i. map win t ! k) / of_nat n) else None)"
    unfolding s n_def using assms(2) by (simp add: rolling_mean_nth)
  have new: "rolling_mean (nat W) mp (map win t') ! i = (if mp \<le> n \<and> 0 < n
      then Some (of_int (\<Sum>k\<in>trailing (nat W) i. map win t' ! k) / of_nat n) else None)"
    unfolding n_def using assms(2) len by (simp add: rolling_mean_nth)
  from old assms(3) have c: "mp \<le> n \<and> 0 < n"
    by (simp split: if_splits)
  from old c assms(3) have v: "v = of_int (\<Sum>k\<in>trailing (nat W) i. map win t ! k) / of_nat n"
    by simp
  have pw: "map win t ! k \<le> map win t' ! k" if "k \<in> trailing (nat W) i" for k
  proof -
    from that assms(2) have k: "k < length t" by (simp add: trailing_def)
    show ?thesis
      using k assms(5) by (cases "k = j") (simp_all add: t'_def)
  qed
  have "(\<Sum>k\<in>trailing (nat W) i. map win t ! k) \<le> (\<Sum>k\<in>trailing (nat W) i. map win t' ! k)"
    by (rule sum_mono) (rule pw)
  then have "(of_int (\<Sum>k\<in>trailing (nat W) i. map win t ! k) :: rat)
             \<le> of_int (\<Sum>k\<in>trailing (nat W) i. map win t' ! k)"
    by (simp only: of_int_le_iff)
  moreover have "(0::rat) \<le> of_nat n" by simp
  ultimately have "(of_int (\<Sum>k\<in>trailing (nat W) i. map win t ! k) :: rat) / of_nat n
             \<le> of_int (\<Sum>k\<in>trailing (nat W) i. map win t' ! k) / of_nat n"
    by (rule divide_right_mono)
  with v new c s' show ?thesis unfolding t'_def by auto
qed

theorem winpct_monotone_witness:
  "winpct form_rows 4 = Inr [None, Some (1 / 2), Some (2 / 3)] \<and> (2::nat) < length form_rows
   \<and> 1 \<in> trailing (nat 4) 2 \<and> win (form_rows ! 1) = 0
   \<and> (\<exists>s' v'. winpct (form_rows[1 := (form_rows ! 1)\<lparr>win := 1\<rparr>]) 4 = Inr s'
         \<and> s' ! 2 = Some v' \<and> 2 / 3 \<le> v')"
proof -
  have a: "winpct form_rows 4 = Inr [None, Some (1 / 2), Some (2 / 3)]"
    by code_simp
  have b: "(2::nat) < length form_rows" by (simp add: form_rows_def)
  have c: "[None, Some (1 / 2), Some (2 / 3 :: rat)] ! 2 = Some (2 / 3)" by simp
  have d: "1 \<in> trailing (nat 4) 2" by (simp add: trailing_def)
  have e: "win (form_rows ! 1) = 0" by (simp add: form_rows_def sample_row_def)
  from winpct_monotone [OF a b c d e] a b d e show ?thesis by blast
qed

section \<open>Properties of the merge\<close>

lemma rolling_10_5: "rolling 10 5 xs = Inr (rolling_mean 10 5 xs)"
  by (simp add: rolling_def)

lemma derive_fields:
  "home_r10 (derive ((g, h), a)) = h"
  "away_r10 (derive ((g, h), a)) = a"
  "r10_diff (derive ((g, h), a)) = Some (fillna h (1 / 2) - fillna a (1 / 2))"
  "home_win (derive ((g, h), a)) = (if home_score g > away_score g then 1 else 0)"
  "hw_is_home (derive ((g, h), a)) = 1"
  "game.truncate (derive ((g, h), a)) = g"
  "date (derive ((g, h), a)) = date g"
  "game_id (derive ((g, h), a)) = game_id g"
  "home_team_id (derive ((g, h), a)) = home_team_id g"
  "away_team_id (derive ((g, h), a)) = away_team_id g"
  by (simp_all add: derive_def game.extend_def game.truncate_def hw_row.fields_def)

lemma merge_left_Nil: "merge_left on [] right = []"
  by (simp add: merge_left_def)

lemma merge_left_Cons:
  "merge_left on (g # left) right =
     (case filter (on g) right of [] \<Rightarrow> [(g, None)] | h # hs \<Rightarrow> map (\<lambda>x. (g, r10 x)) (h # hs))
     @ merge_left on left right"
  by (simp add: merge_left_def)

lemma merge_left_origin:
  assumes "(x, v) \<in> set (merge_left on left right)"
  shows "x \<in> set left \<and> (v = None \<or> (\<exists>h\<in>set right. on x h \<and> r10 h = v))"
  using assms
proof (induction left)
  case Nil
  then show ?case by (simp add: merge_left_Nil)
next
  case (Cons g left)
  show ?case
  proof (cases "(x, v) \<in> set (merge_left on left right)")
    case True
    with Cons.IH show ?thesis by auto
  next
    case False
    with Cons.prems have m: "(x, v) \<in> set (case filter (on g) right of [] \<Rightarrow> [(g, None)]
        | h # hs \<Rightarrow> map (\<lambda>y. (g, r10 y)) (h # hs))"
      by (simp add: merge_left_Cons)
    show ?thesis
    proof (cases "filter (on g) right")
      case Nil
      with m show ?thesis by simp
    next
      case (Cons h hs)
      with m obtain y where y: "y \<in> set (filter (on g) right)" and "x = g" and "v = r10 y"
        by auto
      then show ?thesis by auto
    qed
  qed
qed

lemma merge_left_sorted:
  assumes "sorted (map f left)"
  shows "sorted (map (\<lambda>p. f (fst p)) (merge_left on left right))"
  using assms
proof (induction left)
  case Nil
  then show ?case by (simp add: merge_left_Nil)
next
  case (Cons g left)
  define block where "block = (case filter (on g) right of [] \<Rightarrow> [(g, None)]
        | h # hs \<Rightarrow> map (\<lambda>y. (g, r10 y)) (h # hs))"
  have fst_block: "\<And>p. p \<in> set block \<Longrightarrow> fst p = g"
    unfolding block_def by (auto split: list.splits)
  then have "map (\<lambda>p. f (fst p)) block = replicate (length block) (f g)"
    by (simp add: map_replicate_const [symmetric] cong: map_cong)
  then have sb: "sorted (map (\<lambda>p. f (fst p)) block)"
    by (simp add: sorted_replicate)
  from Cons.prems have tl: "sorted (map f left)" and le: "\<And>y. y \<in> set left \<Longrightarrow> f g \<le> f y"
    by auto
  have rest: "\<And>q. q \<in> set (merge_left on left right) \<Longrightarrow> fst q \<in> set left"
    using merge_left_origin [of _ _ on left right] by (metis prod.collapse)
  have "sorted (map (\<lambda>p. f (fst p)) (block @ merge_left on left right))"
    unfolding map_append sorted_append
    using sb Cons.IH [OF tl] fst_block le rest by auto
  then show ?case by (simp add: merge_left_Cons block_def)
qed

lemma build_home_win_dataset_sorted:
  assumes "sorted (map date games)"
  shows "sorted (map date (build_home_win_dataset team_games games))"
proof -
  define tg where "tg = add_r10 team_games"
  define m1 where "m1 = merge_left (\<lambda>g h. game_id g = tg_game_id h \<and> date g = tg_date h
      \<and> home_team_id g = team_id h) games (filter (\<lambda>r. is_home r = 1) tg)"
  define m2 where "m2 = merge_left (\<lambda>gh a. game_id (fst gh) = tg_game_id a
      \<and> date (fst gh) = tg_date a \<and> away_team_id (fst gh) = team_id a) m1
      (filter (\<lambda>r. is_home r = 0) tg)"
  have eq: "map date (map derive m2) = map (\<lambda>p. date (fst (fst p))) m2"
    by (auto simp: derive_fields)
  have "sorted (map (\<lambda>p. date (fst p)) m1)"
    unfolding m1_def using assms by (rule merge_left_sorted)
  then have "sorted (map (\<lambda>p. date (fst (fst p))) m2)"
    unfolding m2_def by (rule merge_left_sorted)
  then have "sorted (map date (map derive m2))"
    unfolding eq .
  then have "sorted (map date (filter (\<lambda>r. home_r10 r \<noteq> None \<and> away_r10 r \<noteq> None)
      (map derive m2)))"
    by (rule sorted_filter)
  then show ?thesis
    by (simp add: build_home_win_dataset_def Let_def tg_def m1_def m2_def)
qed

lemma merge_left_single:
  assumes "\<And>g. g \<in> set left \<Longrightarrow> length (filter (on g) right) \<le> 1"
  shows "map fst (merge_left on left right) = left"
  using assms
proof (induction left)
  case Nil
  then show ?case by (simp add: merge_left_Nil)
next
  case (Cons g left)
  have "length (filter (on g) right) \<le> 1"
    by (rule Cons.prems) simp
  then have "map fst (case filter (on g) right of [] \<Rightarrow> [(g, None)]
        | h # hs \<Rightarrow> map (\<lambda>x. (g, r10 x)) (h # hs)) = [g]"
    by (cases "filter (on g) right") auto
  moreover have "map fst (merge_left on left right) = left"
    by (rule Cons.IH) (rule Cons.prems, simp)
  ultimately show ?case
    by (simp add: merge_left_Cons)
qed

lemma length_filter_map2:
  assumes "length xs = length ys" and "\<And>x y. P (f x y) = Q x"
  shows "length (filter P (map2 f xs ys)) = length (filter Q xs)"
  using assms(1) by (induction xs ys rule: list_induct2) (simp_all add: assms(2))

lemma with_r10_base:
  "tg_game_id (with_r10 r v) = tg_game_id r" "tg_date (with_r10 r v) = tg_date r"
  "team_id (with_r10 r v) = team_id r" "is_home (with_r10 r v) = is_home r"
  by (simp_all add: with_r10_def team_game.extend_def tg_r10.fields_def)

lemma length_filter_add_r10:
  assumes "\<And>r v. P (with_r10 r v) = Q r"
  shows "length (filter P (add_r10 team_games)) = length (filter Q team_games)"
proof -
  define tg where "tg = sort_key (\<lambda>r. (team_id r, tg_date r)) team_games"
  have "length tg = length (group_rolling 10 5 tg)"
    by (simp add: group_rolling_def)
  then have "length (filter P (map2 with_r10 tg (group_rolling 10 5 tg))) = length (filter Q tg)"
    using assms by (rule length_filter_map2)
  also have "\<dots> = length (filter Q team_games)"
    by (simp add: tg_def filter_sort)
  finally show ?thesis
    by (simp add: add_r10_def Let_def tg_def)
qed

lemma filter_implied:
  "(\<And>x. P x \<Longrightarrow> R x) \<Longrightarrow> filter P (filter R xs) = filter P xs"
  by (induction xs) auto

lemma view_matches:
  assumes "distinct (map game_id games)" and "g \<in> set games"
  shows "length (filter (\<lambda>r. is_home r = b \<and> game_id g = tg_game_id r \<and> Q r)
           (team_game_view games)) \<le> 1"
proof -
  define P where "P = (\<lambda>r. is_home r = b \<and> game_id g = tg_game_id r \<and> Q r)"
  have "filter P (team_game_view games)
      = filter P (filter (\<lambda>r. tg_game_id r = game_id g) (team_game_view games))"
    by (rule filter_implied [symmetric]) (simp add: P_def)
  also have "\<dots> = filter P [set_win (home_view g), set_win (away_view g)]"
    using assms by (simp only: rows_of_game)
  finally have "filter P (team_game_view games)
      = filter P [set_win (home_view g), set_win (away_view g)]" .
  moreover have "length (filter P [set_win (home_view g), set_win (away_view g)]) \<le> 1"
    by (simp add: P_def set_win_def home_view_def away_view_def)
  ultimately show ?thesis
    unfolding P_def by simp
qed

lemma build_home_win_dataset_ids:
  assumes "distinct (map game_id games)"
  shows "distinct (map game_id (build_home_win_dataset (team_game_view games) games))"
proof -
  define tg where "tg = add_r10 (team_game_view games)"
  define onh where "onh = (\<lambda>(g::game) (h::tg_r10). game_id g = tg_game_id h \<and> date g = tg_date h
      \<and> home_team_id g = team_id h)"
  define ona where "ona = (\<lambda>(gh::game \<times> float) (a::tg_r10). game_id (fst gh) = tg_game_id a
      \<and> date (fst gh) = tg_date a \<and> away_team_id (fst gh) = team_id a)"
  define m1 where "m1 = merge_left onh games (filter (\<lambda>r. is_home r = 1) tg)"
  define m2 where "m2 = merge_left ona m1 (filter (\<lambda>r. is_home r = 0) tg)"
  have b: "build_home_win_dataset (team_game_view games) games
           = filter (\<lambda>r. home_r10 r \<noteq> None \<and> away_r10 r \<noteq> None) (map derive m2)"
    by (simp add: build_home_win_dataset_def Let_def tg_def m1_def m2_def onh_def ona_def)
  have one_h: "length (filter (onh g) (filter (\<lambda>r. is_home r = 1) tg)) \<le> 1"
    if g: "g \<in> set games" for g
  proof -
    have "filter (onh g) (filter (\<lambda>r. is_home r = 1) tg)
        = filter (\<lambda>x. is_home x = 1 \<and> onh g x) tg"
      by (simp only: filter_filter)
    moreover have "length (filter (\<lambda>x. is_home x = 1 \<and> onh g x) tg)
        = length (filter (\<lambda>r. is_home r = 1 \<and> game_id g = tg_game_id r
              \<and> (date g = tg_date r \<and> home_team_id g = team_id r)) (team_game_view games))"
      unfolding tg_def by (rule length_filter_add_r10) (simp add: with_r10_base onh_def)
    moreover have "\<dots> \<le> 1"
      using assms g by (rule view_matches)
    ultimately show ?thesis by simp
  qed
  have fst1: "map fst m1 = games"
    unfolding m1_def by (rule merge_left_single) (rule one_h)
  have one_a: "length (filter (ona p) (filter (\<lambda>r. is_home r = 0) tg)) \<le> 1"
    if p: "p \<in> set m1" for p
  proof -
    from p have g: "fst p \<in> set games"
      using fst1 by (metis image_eqI list.set_map)
    have "filter (ona p) (filter (\<lambda>r. is_home r = 0) tg)
        = filter (\<lambda>x. is_home x = 0 \<and> ona p x) tg"
      by (simp only: filter_filter)
    moreover have "length (filter (\<lambda>x. is_home x = 0 \<and> ona p x) tg)
        = length (filter (\<lambda>r. is_home r = 0 \<and> game_id (fst p) = tg_game_id r
              \<and> (date (fst p) = tg_date r \<and> away_team_id (fst p) = team_id r))
            (team_game_view games))"
      unfolding tg_def by (rule length_filter_add_r10) (simp add: with_r10_base ona_def)
    moreover have "\<dots> \<le> 1"
      using assms g by (rule view_matches)
    ultimately show ?thesis by simp
  qed
  have fst2: "map fst m2 = m1"
    unfolding m2_def by (rule merge_left_single) (rule one_a)
  have "map game_id (map derive m2) = map game_id (map fst (map fst m2))"
    by (auto simp: derive_fields)
  also have "\<dots> = map game_id games"
    by (simp only: fst2 fst1)
  finally have "distinct (map game_id (map derive m2))"
    using assms by simp
  then show ?thesis
    unfolding b by (rule distinct_map_filter)
qed

section \<open>Claims about the Home-Win Dataset Builder\<close>

text \<open>
  C5. Every row that \<open>build_home_win_dataset\<close> returns has both rolling-form values
  present; each is the \<open>r10\<close> of a row of the annotated team frame that matches the game
  on id, date and team, so no value that was absent before the join survives. On every
  returned row \<open>r10_diff\<close> is the home value minus the away value, and this is the
  difference computed with the default 1/2 filled in for absent values.
\<close>

theorem build_home_win_dataset_present:
  assumes "r \<in> set (build_home_win_dataset team_games games)"
  shows "\<exists>h a. home_r10 r = Some h \<and> away_r10 r = Some a
     \<and> r10_diff r = Some (h - a)
     \<and> r10_diff r = Some (fillna (home_r10 r) (1 / 2) - fillna (away_r10 r) (1 / 2))
     \<and> (\<exists>x\<in>set (add_r10 team_games). is_home x = 1 \<and> tg_game_id x = game_id r
           \<and> tg_date x = date r \<and> team_id x = home_team_id r \<and> r10 x = Some h)
     \<and> (\<exists>y\<in>set (add_r10 team_games). is_home y = 0 \<and> tg_game_id y = game_id r
           \<and> tg_date y = date r \<and> team_id y = away_team_id r \<and> r10 y = Some a)"
proof -
  define tg where "tg = add_r10 team_games"
  define onh where "onh = (\<lambda>(g::game) (h::tg_r10). game_id g = tg_game_id h \<and> date g = tg_date h
      \<and> home_team_id g = team_id h)"
  define ona where "ona = (\<lambda>(gh::game \<times> float) (a::tg_r10). game_id (fst gh) = tg_game_id a
      \<and> date (fst gh) = tg_date a \<and> away_team_id (fst gh) = team_id a)"
  define m1 where "m1 = merge_left onh games (filter (\<lambda>r. is_home r = 1) tg)"
  define m2 where "m2 = merge_left ona m1 (filter (\<lambda>r. is_home r = 0) tg)"
  have b: "build_home_win_dataset team_games games
           = filter (\<lambda>r. home_r10 r \<noteq> None \<and> away_r10 r \<noteq> None) (map derive m2)"
    by (simp add: build_home_win_dataset_def Let_def tg_def m1_def m2_def onh_def ona_def)
  from assms b obtain g hv av where in2: "((g, hv), av) \<in> set m2" and r: "r = derive ((g, hv), av)"
    and ne: "home_r10 r \<noteq> None" "away_r10 r \<noteq> None"
    by auto
  from ne r obtain h a where h: "hv = Some h" and a: "av = Some a"
    by (auto simp: derive_fields)
  from merge_left_origin [OF in2 [unfolded m2_def]] a
  obtain y where y: "y \<in> set (filter (\<lambda>r. is_home r = 0) tg)" "ona (g, hv) y" "r10 y = Some a"
    and in1: "(g, hv) \<in> set m1"
    by auto
  from merge_left_origin [OF in1 [unfolded m1_def]] h
  obtain x where x: "x \<in> set (filter (\<lambda>r. is_home r = 1) tg)" "onh g x" "r10 x = Some h"
    by auto
  have "home_r10 r = Some h" "away_r10 r = Some a" "r10_diff r = Some (h - a)"
    "r10_diff r = Some (fillna (home_r10 r) (1 / 2) - fillna (away_r10 r) (1 / 2))"
    by (simp_all add: r h a derive_fields fillna_def)
  moreover have "x \<in> set (add_r10 team_games)" "is_home x = 1" "tg_game_id x = game_id r"
    "tg_date x = date r" "team_id x = home_team_id r"
    using x by (simp_all add: tg_def onh_def r derive_fields)
  moreover have "y \<in> set (add_r10 team_games)" "is_home y = 0" "tg_game_id y = game_id r"
    "tg_date y = date r" "team_id y = away_team_id r"
    using y by (simp_all add: tg_def ona_def r derive_fields)
  ultimately show ?thesis using x(3) y(3) by blast
qed

theorem build_home_win_dataset_present_witness:
  "fifth_game \<in> set (build_home_win_dataset (team_game_view (season 7)) (season 7))
   \<and> map home_r10 (build_home_win_dataset (team_game_view (season 5)) (season 5)) = [Some (3 / 5)]
   \<and> build_home_win_dataset (team_game_view (season 4)) (season 4) = []
   \<and> (\<exists>h a. home_r10 fifth_game = Some h \<and> away_r10 fifth_game = Some a
         \<and> r10_diff fifth_game = Some (h - a) \<and> h - a = 1 / 5)"
proof -
  have "hd (build_home_win_dataset (team_game_view (season 7)) (season 7)) = fifth_game"
    "build_home_win_dataset (team_game_view (season 7)) (season 7) \<noteq> []"
    by code_simp+
  then have m: "fifth_game \<in> set (build_home_win_dataset (team_game_view (season 7)) (season 7))"
    using hd_in_set by metis
  have s5: "map home_r10 (build_home_win_dataset (team_game_view (season 5)) (season 5))
      = [Some (3 / 5)]"
    by code_simp
  have s4: "build_home_win_dataset (team_game_view (season 4)) (season 4) = []"
    by code_simp
  from build_home_win_dataset_present [OF m] obtain h a where
    ha: "home_r10 fifth_game = Some h" "away_r10 fifth_game = Some a"
      "r10_diff fifth_game = Some (h - a)"
    by blast
  then have "h - a = 1 / 5"
    by (simp add: fifth_game_def)
  with m s5 s4 ha show ?thesis by blast
qed

section \<open>Properties of the estimator\<close>

lemma split_idx_eq: "split_idx n = (4 * n) div 5"
proof -
  have "(of_nat n * (0.8 :: rat)) = of_int (4 * int n) / of_int 5"
    by simp
  then have "\<lfloor>of_nat n * (0.8 :: rat)\<rfloor> = (4 * int n) div 5"
    by (simp only: floor_divide_of_int_eq)
  then have "split_idx n = nat ((4 * int n) div 5)"
    by (simp add: split_idx_def)
  also have "\<dots> = (4 * n) div 5"
    by (simp add: nat_div_distrib nat_mult_distrib)
  finally show ?thesis .
qed

lemma split_idx_bounds: "50 \<le> n \<Longrightarrow> 1 \<le> split_idx n \<and> split_idx n < n"
  unfolding split_idx_eq by arith

lemma render_tab_model:
  "tab \<noteq> ''tab-trend'' \<Longrightarrow> tab \<noteq> ''tab-runs'' \<Longrightarrow>
   render_tab sk e tab team window start end = render_model sk e start end"
  by (simp add: render_tab_def)

lemma render_model_small:
  "length (model_ds e start end) < 50 \<Longrightarrow> render_model sk e start end = ([], Inr NotEnough)"
  by (simp add: render_model_def)

lemma render_model_large:
  assumes "50 \<le> length (model_ds e start end)"
  shows "render_model sk e start end =
     (let ds = model_ds e start end;
          split = split_idx (length ds);
          X_train = map features_of (take split ds); X_test = map features_of (drop split ds);
          y_train = map home_win (take split ds); y_test = map home_win (drop split ds)
      in case fit sk X_train y_train of
           Inl err \<Rightarrow> ([Fit X_train y_train], Inl err)
         | Inr model \<Rightarrow>
             let proba = predict_proba sk model X_test
             in case roc_auc_score sk y_test proba of
                  Inl err \<Rightarrow>
                    ([Fit X_train y_train, PredictProba X_test, RocAuc y_test proba], Inl err)
                | Inr auc \<Rightarrow>
                    ([Fit X_train y_train, PredictProba X_test, RocAuc y_test proba],
                     Inr (ModelView (coef sk model) auc
                            (tail 20 (test_view e (drop split ds) proba)))))"
  using assms
  by (simp add: render_model_def Let_def take_map drop_map split: sum.splits)

lemma model_ds_sorted:
  assumes "sorted (map date (HOME_DS e))"
  shows "sorted (map date (model_ds e start end))"
  unfolding model_ds_def using assms by (intro sorted_filter)

section \<open>Claims about the Win-Probability Estimator\<close>

text \<open>
  C7. When fewer than 50 rows of \<open>HOME_DS\<close> lie in the requested date range, the model
  tab of \<open>render_tab\<close> returns the view \<open>NotEnough\<close> (the message "Not enough
  historical games ..."), which is not a \<open>ModelView\<close>. Nothing is raised and no call to
  the library is made, whatever the library is: no model is fitted.
\<close>

theorem render_tab_insufficient_data:
  assumes "tab \<noteq> ''tab-trend''" and "tab \<noteq> ''tab-runs''"
    and "length (model_ds e start end) < 50"
  shows "render_tab sk e tab team window start end = ([], Inr NotEnough)
     \<and> (\<forall>c a rows. NotEnough \<noteq> ModelView c a rows)"
  using assms by (simp add: render_tab_model render_model_small)

theorem render_tab_insufficient_data_witness:
  "''tab-model'' \<noteq> ''tab-trend'' \<and> ''tab-model'' \<noteq> ''tab-runs''
   \<and> length (model_ds (sample_env 100 49) 0 100) < 50
   \<and> render_tab stub_sklearn (sample_env 100 49) ''tab-model'' 1 10 0 100 = ([], Inr NotEnough)"
proof -
  have a: "''tab-model'' \<noteq> ''tab-trend''" and b: "''tab-model'' \<noteq> ''tab-runs''"
    by simp_all
  have c: "length (model_ds (sample_env 100 49) 0 100) < 50"
    by code_simp
  from render_tab_insufficient_data [OF a b c, of stub_sklearn 1 10] a b c
  show ?thesis by blast
qed

text \<open>
  C10. When the model tab goes on (at least 50 rows), the split index is at least 1 and
  below the number of rows, so both partitions are non-empty. The first call to the
  library is the fit, and every call receives data: the fit a non-empty training set, the
  prediction and the scorer a non-empty evaluation set.
\<close>

theorem render_tab_partitions_nonempty:
  assumes "tab \<noteq> ''tab-trend''" and "tab \<noteq> ''tab-runs''"
    and "50 \<le> length (model_ds e start end)"
  shows "1 \<le> split_idx (length (model_ds e start end))
     \<and> split_idx (length (model_ds e start end)) < length (model_ds e start end)
     \<and> take (split_idx (length (model_ds e start end))) (model_ds e start end) \<noteq> []
     \<and> drop (split_idx (length (model_ds e start end))) (model_ds e start end) \<noteq> []
     \<and> (\<exists>X y rest. fst (render_tab sk e tab team window start end) = Fit X y # rest)
     \<and> (\<forall>c\<in>set (fst (render_tab sk e tab team window start end)).
           case c of Fit X y \<Rightarrow> X \<noteq> [] \<and> y \<noteq> []
                   | PredictProba X \<Rightarrow> X \<noteq> []
                   | RocAuc y p \<Rightarrow> y \<noteq> [])"
proof -
  define ds where "ds = model_ds e start end"
  define k where "k = split_idx (length ds)"
  from assms(3) have b: "1 \<le> k" "k < length ds"
    using split_idx_bounds [of "length ds"] by (simp_all add: k_def ds_def)
  then have ne: "take k ds \<noteq> []" "drop k ds \<noteq> []"
    by auto
  have r: "render_tab sk e tab team window start end = render_model sk e start end"
    using assms(1,2) by (rule render_tab_model)
  note l = render_model_large [OF assms(3), of sk, folded ds_def, unfolded Let_def, folded k_def]
  have first: "\<exists>X y rest. fst (render_model sk e start end) = Fit X y # rest"
    unfolding l by (simp split: sum.splits)
  have all: "\<forall>c\<in>set (fst (render_model sk e start end)).
           case c of Fit X y \<Rightarrow> X \<noteq> [] \<and> y \<noteq> []
                   | PredictProba X \<Rightarrow> X \<noteq> []
                   | RocAuc y p \<Rightarrow> y \<noteq> []"
    unfolding l using ne by (simp split: sum.splits)
  from b ne first all show ?thesis
    unfolding r ds_def [symmetric] k_def [symmetric] by blast
qed

theorem render_tab_partitions_nonempty_witness:
  "''tab-model'' \<noteq> ''tab-trend'' \<and> ''tab-model'' \<noteq> ''tab-runs''
   \<and> 50 \<le> length (model_ds (sample_env 100 50) 0 100)
   \<and> split_idx (length (model_ds (sample_env 100 50) 0 100)) = 40
   \<and> (\<exists>X y rest. fst (render_tab stub_sklearn (sample_env 100 50) ''tab-model'' 1 10 0 100)
          = Fit X y # rest \<and> X \<noteq> [] \<and> y \<noteq> [])"
proof -
  have a: "''tab-model'' \<noteq> ''tab-trend''" and b: "''tab-model'' \<noteq> ''tab-runs''"
    by simp_all
  have c: "50 \<le> length (model_ds (sample_env 100 50) 0 100)"
    by code_simp
  have d: "split_idx (length (model_ds (sample_env 100 50) 0 100)) = 40"
    by code_simp
  note inst = render_tab_partitions_nonempty [OF a b c, of stub_sklearn 1 10]
  from inst obtain X y rest where
    f: "fst (render_tab stub_sklearn (sample_env 100 50) ''tab-model'' 1 10 0 100) = Fit X y # rest"
    by blast
  from inst have "\<forall>c\<in>set (fst (render_tab stub_sklearn (sample_env 100 50) ''tab-model'' 1 10 0 100)).
           case c of Fit X y \<Rightarrow> X \<noteq> [] \<and> y \<noteq> []
                   | PredictProba X \<Rightarrow> X \<noteq> []
                   | RocAuc y p \<Rightarrow> y \<noteq> []"
    by blast
  with f have "X \<noteq> [] \<and> y \<noteq> []" by simp
  with f a b c d show ?thesis by blast
qed

text \<open>
  C6. The dataset keeps the date order of the games frame, and over games with distinct
  ids its rows have distinct ids. On a date-ordered \<open>HOME_DS\<close> with \<open>n \<ge> 50\<close> rows
  \<open>ds\<close> in the requested range and \<open>k\<close> the floor of \<open>0.8 * n\<close> (which is
  \<open>4 * n div 5\<close>): the classifier is fitted on the first \<open>k\<close> rows of \<open>ds\<close> in their
  order, and what is predicted and scored afterwards are the remaining rows in their
  order. The two pieces make up \<open>ds\<close> position by position, the date of every training
  row is at most the date of every evaluation row, and with distinct game ids no row is
  in both.
\<close>

theorem render_tab_chronological_split:
  "(sorted (map date games) \<longrightarrow> sorted (map date (build_home_win_dataset team_games games)))
   \<and> (distinct (map game_id games) \<longrightarrow>
        distinct (map game_id (build_home_win_dataset (team_game_view games) games)))
   \<and> (tab \<noteq> ''tab-trend'' \<and> tab \<noteq> ''tab-runs'' \<and> sorted (map date (HOME_DS e))
        \<and> ds = model_ds e start end \<and> 50 \<le> length ds
        \<and> k = nat \<lfloor>of_nat (length ds) * (0.8 :: rat)\<rfloor> \<longrightarrow>
       k = (4 * length ds) div 5
       \<and> (\<exists>rest. fst (render_tab sk e tab team window start end)
                   = Fit (map features_of (take k ds)) (map home_win (take k ds)) # rest
             \<and> (\<forall>c\<in>set rest. c = PredictProba (map features_of (drop k ds))
                    \<or> (\<exists>p. c = RocAuc (map home_win (drop k ds)) p)))
       \<and> take k ds @ drop k ds = ds \<and> length (take k ds) = k
       \<and> (\<forall>i<k. take k ds ! i = ds ! i)
       \<and> (\<forall>j<length ds - k. drop k ds ! j = ds ! (k + j))
       \<and> (\<forall>a\<in>set (take k ds). \<forall>b\<in>set (drop k ds). date a \<le> date b)
       \<and> (distinct (map game_id (HOME_DS e)) \<longrightarrow> set (take k ds) \<inter> set (drop k ds) = {}))"
proof (intro conjI impI)
  assume "sorted (map date games)"
  then show "sorted (map date (build_home_win_dataset team_games games))"
    by (rule build_home_win_dataset_sorted)
next
  assume "distinct (map game_id games)"
  then show "distinct (map game_id (build_home_win_dataset (team_game_view games) games))"
    by (rule build_home_win_dataset_ids)
next
  assume h: "tab \<noteq> ''tab-trend'' \<and> tab \<noteq> ''tab-runs'' \<and> sorted (map date (HOME_DS e))
        \<and> ds = model_ds e start end \<and> 50 \<le> length ds
        \<and> k = nat \<lfloor>of_nat (length ds) * (0.8 :: rat)\<rfloor>"
  then have tab: "tab \<noteq> ''tab-trend''" "tab \<noteq> ''tab-runs''"
    and srt: "sorted (map date (HOME_DS e))" and ds: "ds = model_ds e start end"
    and n: "50 \<le> length ds"
    by blast+
  have k: "k = split_idx (length ds)"
    unfolding split_idx_def using h by blast
  show "k = (4 * length ds) div 5"
    by (simp add: k split_idx_eq)
  from n have kb: "1 \<le> k" "k < length ds"
    using split_idx_bounds [of "length ds"] by (simp_all add: k)
  have r: "render_tab sk e tab team window start end = render_model sk e start end"
    using tab by (rule render_tab_model)
  have n': "50 \<le> length (model_ds e start end)" using n ds by simp
  note l = render_model_large [OF n', of sk, folded ds, unfolded Let_def, folded k]
  show "\<exists>rest. fst (render_tab sk e tab team window start end)
                   = Fit (map features_of (take k ds)) (map home_win (take k ds)) # rest
             \<and> (\<forall>c\<in>set rest. c = PredictProba (map features_of (drop k ds))
                    \<or> (\<exists>p. c = RocAuc (map home_win (drop k ds)) p))"
    unfolding r l by (simp split: sum.splits)
  show "take k ds @ drop k ds = ds" by simp
  show "length (take k ds) = k" using kb by simp
  show "\<forall>i<k. take k ds ! i = ds ! i" by simp
  show "\<forall>j<length ds - k. drop k ds ! j = ds ! (k + j)" using kb by simp
  have "sorted (map date ds)"
    unfolding ds using srt by (rule model_ds_sorted)
  then have "sorted (map date (take k ds) @ map date (drop k ds))"
    by (simp only: map_append [symmetric] append_take_drop_id)
  then show "\<forall>a\<in>set (take k ds). \<forall>b\<in>set (drop k ds). date a \<le> date b"
    by (auto simp: sorted_append)
  show "set (take k ds) \<inter> set (drop k ds) = {}" if "distinct (map game_id (HOME_DS e))"
  proof -
    from that have "distinct (map game_id ds)"
      unfolding ds model_ds_def by (intro distinct_map_filter)
    then have "distinct ds" by (simp add: distinct_map)
    then show ?thesis
      by (rule set_take_disj_set_drop_if_distinct) simp
  qed
qed

theorem render_tab_chronological_split_witness:
  "sorted (map date (season 7)) \<and> distinct (map game_id (season 7))
   \<and> sorted (map date (build_home_win_dataset (team_game_view (season 7)) (season 7)))
   \<and> distinct (map game_id (build_home_win_dataset (team_game_view (season 7)) (season 7)))
   \<and> ''tab-model'' \<noteq> ''tab-trend'' \<and> ''tab-model'' \<noteq> ''tab-runs''
   \<and> sorted (map date (HOME_DS (sample_env 100 100)))
   \<and> distinct (map game_id (HOME_DS (sample_env 100 100)))
   \<and> length (model_ds (sample_env 100 100) 0 100) = 100
   \<and> nat \<lfloor>of_nat (length (model_ds (sample_env 100 100) 0 100)) * (0.8 :: rat)\<rfloor> = 80
   \<and> (\<exists>rest. fst (render_tab stub_sklearn (sample_env 100 100) ''tab-model'' 1 10 0 100)
         = Fit (map features_of (take 80 (model_ds (sample_env 100 100) 0 100)))
               (map home_win (take 80 (model_ds (sample_env 100 100) 0 100))) # rest)
   \<and> date (last (take 80 (model_ds (sample_env 100 100) 0 100)))
       \<le> date (hd (drop 80 (model_ds (sample_env 100 100) 0 100)))
   \<and> set (take 80 (model_ds (sample_env 100 100) 0 100))
       \<inter> set (drop 80 (model_ds (sample_env 100 100) 0 100)) = {}"
proof -
  define ds where "ds = model_ds (sample_env 100 100) 0 100"
  have g1: "sorted (map date (season 7))" by code_simp
  have g2: "distinct (map game_id (season 7))" by code_simp
  have t: "''tab-model'' \<noteq> ''tab-trend'' \<and> ''tab-model'' \<noteq> ''tab-runs''" by simp
  have s1: "sorted (map date (HOME_DS (sample_env 100 100)))" by code_simp
  have s2: "distinct (map game_id (HOME_DS (sample_env 100 100)))" by code_simp
  have n: "length ds = 100" unfolding ds_def by code_simp
  have k: "nat \<lfloor>of_nat (length ds) * (0.8 :: rat)\<rfloor> = 80"
    unfolding n by simp
  note inst = render_tab_chronological_split [of "season 7" "team_game_view (season 7)"
      "''tab-model''" "sample_env 100 100" ds 0 100 80 stub_sklearn 1 10]
  note b1 = inst [THEN conjunct1, THEN mp, OF g1]
  note b2 = inst [THEN conjunct2, THEN conjunct1, THEN mp, OF g2]
  have hyp: "''tab-model'' \<noteq> ''tab-trend'' \<and> ''tab-model'' \<noteq> ''tab-runs''
      \<and> sorted (map date (HOME_DS (sample_env 100 100)))
      \<and> ds = model_ds (sample_env 100 100) 0 100
      \<and> 50 \<le> length ds
      \<and> 80 = nat \<lfloor>of_nat (length ds) * (0.8 :: rat)\<rfloor>"
    using t s1 n k ds_def by simp
  note part = inst [THEN conjunct2, THEN conjunct2, THEN mp, OF hyp]
  from part [THEN conjunct2, THEN conjunct1] have
    f: "\<exists>rest. fst (render_tab stub_sklearn (sample_env 100 100) ''tab-model'' 1 10 0 100)
         = Fit (map features_of (take 80 ds)) (map home_win (take 80 ds)) # rest"
    by blast
  note o = part [THEN conjunct2, THEN conjunct2, THEN conjunct2, THEN conjunct2,
      THEN conjunct2, THEN conjunct2, THEN conjunct1]
  note dj = part [THEN conjunct2, THEN conjunct2, THEN conjunct2, THEN conjunct2,
      THEN conjunct2, THEN conjunct2, THEN conjunct2, THEN mp, OF s2]
  have "take 80 ds \<noteq> []" "drop 80 ds \<noteq> []" using n by auto
  then have "last (take 80 ds) \<in> set (take 80 ds)" "hd (drop 80 ds) \<in> set (drop 80 ds)"
    by simp_all
  with o have le: "date (last (take 80 ds)) \<le> date (hd (drop 80 ds))" by blast
  from t have t1: "''tab-model'' \<noteq> ''tab-trend''" and t2: "''tab-model'' \<noteq> ''tab-runs''"
    by simp_all
  show ?thesis
    unfolding ds_def [symmetric]
    by (intro conjI) (fact g1 g2 b1 b2 t1 t2 s1 s2 n k f le dj)+
qed




end
